theory Spec2Isabelle
  imports Main "HOL-Library.AList"
begin

section \<open>Python strings\<close>

text \<open>
  The module \<^verbatim>\<open>mhcnames/helpers.py\<close> works on Python \<^verbatim>\<open>str\<close> values. They are modelled
  as \<^typ>\<open>string\<close> (lists of \<^typ>\<open>char\<close>); the casing tables and the whitespace
  table below cover the ASCII range, which is where the names handled by the module
  live. A character outside these tables is left alone by \<open>str_upper\<close>,
  \<open>str_lower\<close> and \<open>str_strip\<close>.
\<close>

definition ascii_lowercase :: string where
  "ascii_lowercase = ''abcdefghijklmnopqrstuvwxyz''"

definition ascii_uppercase :: string where
  "ascii_uppercase = ''ABCDEFGHIJKLMNOPQRSTUVWXYZ''"

definition char_upper :: "char \<Rightarrow> char" where
  "char_upper c =
     (case map_of (zip ascii_lowercase ascii_uppercase) c of None \<Rightarrow> c | Some u \<Rightarrow> u)"

definition char_lower :: "char \<Rightarrow> char" where
  "char_lower c =
     (case map_of (zip ascii_uppercase ascii_lowercase) c of None \<Rightarrow> c | Some l \<Rightarrow> l)"

text \<open>\<^verbatim>\<open>name.upper()\<close> and \<^verbatim>\<open>name.lower()\<close>.\<close>

definition str_upper :: "string \<Rightarrow> string" where
  "str_upper name = map char_upper name"

definition str_lower :: "string \<Rightarrow> string" where
  "str_lower name = map char_lower name"

text \<open>
  The characters \<^verbatim>\<open>str.strip()\<close> removes when called without an argument: tab, line
  feed, vertical tab, form feed, carriage return, the four separators
  \<^verbatim>\<open>\x1c\<close> to \<^verbatim>\<open>\x1f\<close>, and the space.
\<close>

definition whitespace :: "char list" where
  "whitespace =
     [CHR 0x09, CHR 0x0A, CHR 0x0B, CHR 0x0C, CHR 0x0D,
      CHR 0x1C, CHR 0x1D, CHR 0x1E, CHR 0x1F, CHR 0x20]"

definition isspace :: "char \<Rightarrow> bool" where
  "isspace c = (c \<in> set whitespace)"

text \<open>\<^verbatim>\<open>name.strip()\<close>: drop the whitespace at both ends.\<close>

definition str_strip :: "string \<Rightarrow> string" where
  "str_strip name = rev (dropWhile isspace (rev (dropWhile isspace name)))"

text \<open>
  \<^verbatim>\<open>name.replace(char, "")\<close> where \<^verbatim>\<open>char\<close> is one character (the loops of the module
  run over the characters of \<^verbatim>\<open>chars_to_remove\<close>): every occurrence goes.
\<close>

definition str_replace_char :: "char \<Rightarrow> string \<Rightarrow> string" where
  "str_replace_char char name = filter (\<lambda>c. c \<noteq> char) name"

text \<open>The default of the keyword argument \<^verbatim>\<open>chars_to_remove="-_'"\<close>.\<close>

definition default_chars_to_remove :: string where
  "default_chars_to_remove = [CHR ''-'', CHR ''_'', CHR 0x27]"

subsection \<open>\<^verbatim>\<open>expand_strings\<close>\<close>

text \<open>
  \<^verbatim>\<open>
  def expand_strings(*names, chars_to_remove="-_'"):
      result_set = set(names)
      for char in chars_to_remove:
          for name in list(result_set):
              result_set.add(name.replace(char, ""))
      for name in list(result_set):
          result_set.add(name.upper())
      for name in list(result_set):
          result_set.add(name.lower())
      return result_set
  \<close>
  Each inner loop runs over a snapshot of the set and only adds to it, so it is the
  union of the set with the image of the snapshot.
\<close>

definition expand_strings :: "string list \<Rightarrow> string \<Rightarrow> string set" where
  "expand_strings names chars_to_remove =
     (let result_set = set names;
          result_set = fold (\<lambda>char rs. rs \<union> str_replace_char char ` rs)
                            chars_to_remove result_set;
          result_set = result_set \<union> str_upper ` result_set;
          result_set = result_set \<union> str_lower ` result_set
      in result_set)"

subsection \<open>\<^verbatim>\<open>normalize_string\<close>\<close>

text \<open>
  \<^verbatim>\<open>
  def normalize_string(name, chars_to_remove="-_'"):
      if " " in name:
          name = name.strip()
      name = name.upper()
      for char in chars_to_remove:
          if char in name:
              name = name.replace(char, "")
      return name
  \<close>
\<close>

definition normalize_string :: "string \<Rightarrow> string \<Rightarrow> string" where
  "normalize_string name chars_to_remove =
     (let name = (if CHR '' '' \<in> set name then str_strip name else name);
          name = str_upper name
      in fold (\<lambda>char name. if char \<in> set name then str_replace_char char name else name)
              chars_to_remove name)"

section \<open>Python values\<close>

text \<open>
  The dictionary functions and the container are dynamically typed: they test
  \<^verbatim>\<open>isinstance(v, (list, tuple, set))\<close>, use values as dictionary keys and add them to
  sets. The values they meet are modelled by one datatype. A Python \<^verbatim>\<open>set\<close> is the list
  of its elements, pairwise different, in the order they were added; Python leaves the
  iteration order of a set open, and nothing below depends on it.
\<close>

datatype pyval =
    PNone
  | PInt int
  | PStr string
  | PList "pyval list"
  | PTuple "pyval list"
  | PSet "pyval list"

datatype error =
    KeyError pyval
  | TypeError string
  | AttributeError string

text \<open>
  Dictionary keys and set elements are hashed. Lists and sets are unhashable, a tuple
  is hashable when all its components are.
\<close>

fun hashable :: "pyval \<Rightarrow> bool" where
  "hashable (PList xs) = False"
| "hashable (PSet xs) = False"
| "hashable (PTuple xs) = (\<forall>x \<in> set xs. hashable x)"
| "hashable PNone = True"
| "hashable (PInt i) = True"
| "hashable (PStr s) = True"

definition unhashable :: error where
  "unhashable = TypeError ''unhashable type''"

text \<open>\<^verbatim>\<open>isinstance(v, (list, tuple, set))\<close> and the elements a \<^verbatim>\<open>for\<close> loop over \<^verbatim>\<open>v\<close> visits.\<close>

fun is_collection :: "pyval \<Rightarrow> bool" where
  "is_collection (PList xs) = True"
| "is_collection (PTuple xs) = True"
| "is_collection (PSet xs) = True"
| "is_collection v = False"

fun elements :: "pyval \<Rightarrow> pyval list" where
  "elements (PList xs) = xs"
| "elements (PTuple xs) = xs"
| "elements (PSet xs) = xs"
| "elements v = []"

text \<open>\<^verbatim>\<open>s.add(x)\<close> on the elements of a set: \<^verbatim>\<open>x\<close> is hashed first.\<close>

definition set_add :: "pyval list \<Rightarrow> pyval \<Rightarrow> error + pyval list" where
  "set_add s x =
     (if \<not> hashable x then Inl unhashable
      else Inr (if x \<in> set s then s else s @ [x]))"

text \<open>
  \<^verbatim>\<open>v.add(x)\<close> on any value: only a set has the method.
\<close>

fun method_add :: "pyval \<Rightarrow> pyval \<Rightarrow> error + pyval" where
  "method_add (PSet s) x = (case set_add s x of Inl e \<Rightarrow> Inl e | Inr s' \<Rightarrow> Inr (PSet s'))"
| "method_add v x = Inl (AttributeError ''add'')"

text \<open>
  A \<^verbatim>\<open>dict\<close> is an association list in insertion order: \<^const>\<open>map_of\<close> reads it and
  \<^const>\<open>AList.update\<close> assigns (in place for a key that is there, at the end for a new
  one). A \<^verbatim>\<open>defaultdict(set)\<close> holds the element lists of its sets; reading a key that
  is absent stores the empty set under it.
\<close>

type_synonym pydict = "(pyval \<times> pyval) list"

type_synonym setdict = "(pyval \<times> pyval list) list"

definition defaultdict_getitem :: "setdict \<Rightarrow> pyval \<Rightarrow> (error + pyval list) \<times> setdict" where
  "defaultdict_getitem d k =
     (if \<not> hashable k then (Inl unhashable, d)
      else case map_of d k of
             Some s \<Rightarrow> (Inr s, d)
           | None \<Rightarrow> (Inr [], AList.update k [] d))"

text \<open>
  \<^verbatim>\<open>result[v].add(k)\<close> on a \<^verbatim>\<open>defaultdict(set)\<close>: the set read (or created) under \<^verbatim>\<open>v\<close>
  is changed in place. An exception leaves the function, and the dictionary with it.
\<close>

definition defaultdict_add :: "setdict \<Rightarrow> pyval \<Rightarrow> pyval \<Rightarrow> error + setdict" where
  "defaultdict_add result v k =
     (case defaultdict_getitem result v of
        (Inl e, _) \<Rightarrow> Inl e
      | (Inr s, result') \<Rightarrow>
          (case set_add s k of
             Inl e \<Rightarrow> Inl e
           | Inr s' \<Rightarrow> Inr (AList.update v s' result')))"

section \<open>\<^verbatim>\<open>invert_dictionary\<close>\<close>

text \<open>
  \<^verbatim>\<open>
  def invert_dictionary(d):
      result = defaultdict(set)
      for k, v in d.items():
          if isinstance(v, (list, tuple, set)):
              for vi in v:
                  result[vi].add(k)
          else:
              result[v].add(k)
      return result
  \<close>
\<close>

fun invert_dictionary_values :: "setdict \<Rightarrow> pyval \<Rightarrow> pyval list \<Rightarrow> error + setdict" where
  "invert_dictionary_values result k [] = Inr result"
| "invert_dictionary_values result k (vi # vs) =
     (case defaultdict_add result vi k of
        Inl e \<Rightarrow> Inl e
      | Inr result' \<Rightarrow> invert_dictionary_values result' k vs)"

fun invert_dictionary_items :: "setdict \<Rightarrow> pydict \<Rightarrow> error + setdict" where
  "invert_dictionary_items result [] = Inr result"
| "invert_dictionary_items result ((k, v) # rest) =
     (case (if is_collection v
            then invert_dictionary_values result k (elements v)
            else defaultdict_add result v k) of
        Inl e \<Rightarrow> Inl e
      | Inr result' \<Rightarrow> invert_dictionary_items result' rest)"

definition invert_dictionary :: "pydict \<Rightarrow> error + setdict" where
  "invert_dictionary d = invert_dictionary_items [] d"

section \<open>\<^verbatim>\<open>NormalizingDictionary\<close>\<close>

text \<open>
  The instance attributes assigned by \<^verbatim>\<open>__init__\<close>. The normalization function is any
  callable; it may raise. The default-value factory is an optional callable without
  arguments.
\<close>

record NormalizingDictionary =
  store :: pydict
  original_to_normalized_key_dict :: pydict
  normalized_to_original_keys_dict :: setdict
  normalize_fn :: "pyval \<Rightarrow> error + pyval"
  default_value_fn :: "(unit \<Rightarrow> pyval) option"

text \<open>
  The default \<^verbatim>\<open>normalize_fn=normalize_string\<close> applied to an arbitrary value. On a
  string it is \<^const>\<open>normalize_string\<close>. \<^verbatim>\<open>" " in name\<close> raises TypeError on None and
  on an integer; on a list, tuple or set it is a membership test, after which
  \<^verbatim>\<open>name.strip()\<close> or \<^verbatim>\<open>name.upper()\<close> raises AttributeError.
\<close>

fun normalize_string_pyval :: "pyval \<Rightarrow> error + pyval" where
  "normalize_string_pyval (PStr name) = Inr (PStr (normalize_string name default_chars_to_remove))"
| "normalize_string_pyval PNone = Inl (TypeError ''argument is not iterable'')"
| "normalize_string_pyval (PInt i) = Inl (TypeError ''argument is not iterable'')"
| "normalize_string_pyval v =
     (if PStr '' '' \<in> set (elements v) then Inl (AttributeError ''strip'')
      else Inl (AttributeError ''upper''))"

text \<open>The built-in \<^verbatim>\<open>set\<close> used as a factory: \<^verbatim>\<open>set()\<close> is the empty set.\<close>

definition set_constructor :: "unit \<Rightarrow> pyval" where
  "set_constructor u = PSet []"

text \<open>
  \<^verbatim>\<open>
  def __setitem__(self, k, v):
      k_normalized = self.normalize_fn(k)
      self.original_to_normalized_key_dict[k] = k_normalized
      self.normalized_to_original_keys_dict[k_normalized].add(k)
      self.store[k_normalized] = v
  \<close>
  Every statement may raise, and the attributes assigned before it keep their new
  values: the container comes back in both cases.
\<close>

definition setitem ::
  "NormalizingDictionary \<Rightarrow> pyval \<Rightarrow> pyval \<Rightarrow> (error + unit) \<times> NormalizingDictionary" where
  "setitem self k v =
     (case normalize_fn self k of
        Inl e \<Rightarrow> (Inl e, self)
      | Inr k_normalized \<Rightarrow>
          if \<not> hashable k then (Inl unhashable, self)
          else
            (let self = self\<lparr>original_to_normalized_key_dict :=
                          AList.update k k_normalized (original_to_normalized_key_dict self)\<rparr>
             in (case defaultdict_getitem (normalized_to_original_keys_dict self) k_normalized of
                   (Inl e, d) \<Rightarrow> (Inl e, self\<lparr>normalized_to_original_keys_dict := d\<rparr>)
                 | (Inr s, d) \<Rightarrow>
                     (case set_add s k of
                        Inl e \<Rightarrow> (Inl e, self\<lparr>normalized_to_original_keys_dict := d\<rparr>)
                      | Inr s' \<Rightarrow>
                          (Inr (),
                           self\<lparr>normalized_to_original_keys_dict := AList.update k_normalized s' d,
                                store := AList.update k_normalized v (store self)\<rparr>)))))"

text \<open>
  \<^verbatim>\<open>
  def __getitem__(self, k):
      k_normalized = self.normalize_fn(k)
      if k_normalized not in self.store:
          if self.default_value_fn is not None:
              self.store[k_normalized] = self.default_value_fn()
          else:
              raise KeyError(k)
      return self.store[k_normalized]
  \<close>
\<close>

definition getitem ::
  "NormalizingDictionary \<Rightarrow> pyval \<Rightarrow> (error + pyval) \<times> NormalizingDictionary" where
  "getitem self k =
     (case normalize_fn self k of
        Inl e \<Rightarrow> (Inl e, self)
      | Inr k_normalized \<Rightarrow>
          if \<not> hashable k_normalized then (Inl unhashable, self)
          else
            (case map_of (store self) k_normalized of
               Some v \<Rightarrow> (Inr v, self)
             | None \<Rightarrow>
                 (case default_value_fn self of
                    Some f \<Rightarrow>
                      (let v = f ()
                       in (Inr v, self\<lparr>store := AList.update k_normalized v (store self)\<rparr>))
                  | None \<Rightarrow> (Inl (KeyError k), self))))"

text \<open>
  \<^verbatim>\<open>
  def __init__(self, *pairs, normalize_fn=normalize_string, default_value_fn=None):
      self.store = {}
      self.original_to_normalized_key_dict = {}
      self.normalized_to_original_keys_dict = defaultdict(set)
      self.normalize_fn = normalize_fn
      self.default_value_fn = default_value_fn
      for (k, v) in pairs:
          self[k] = v
  \<close>
  An exception raised by an assignment leaves the constructor: no container is made.
\<close>

fun setitem_pairs :: "NormalizingDictionary \<Rightarrow> pydict \<Rightarrow> error + NormalizingDictionary" where
  "setitem_pairs self [] = Inr self"
| "setitem_pairs self ((k, v) # pairs) =
     (case setitem self k v of
        (Inl e, _) \<Rightarrow> Inl e
      | (Inr _, self') \<Rightarrow> setitem_pairs self' pairs)"

definition init ::
  "pydict \<Rightarrow> (pyval \<Rightarrow> error + pyval) \<Rightarrow> (unit \<Rightarrow> pyval) option \<Rightarrow> error + NormalizingDictionary" where
  "init pairs nf dvf =
     setitem_pairs
       \<lparr>store = [],
        original_to_normalized_key_dict = [],
        normalized_to_original_keys_dict = [],
        normalize_fn = nf,
        default_value_fn = dvf\<rparr>
       pairs"

text \<open>
  Attribute lookup on an instance. The data attributes are the five that \<^verbatim>\<open>__init__\<close>
  assigns, the others are the methods of the class; any other name raises
  AttributeError.
\<close>

datatype attribute =
    DictAttr pydict
  | SetDictAttr setdict
  | CallableAttr
  | MethodAttr

definition method_names :: "string list" where
  "method_names =
     [''__init__'', ''__getitem__'', ''__setitem__'', ''get'', ''keys'',
      ''normalized_keys'', ''keys_aligned_with_values'', ''values'', ''items'', ''invert'']"

definition getattr :: "NormalizingDictionary \<Rightarrow> string \<Rightarrow> error + attribute" where
  "getattr self name =
     (if name = ''store'' then Inr (DictAttr (store self))
      else if name = ''original_to_normalized_key_dict''
        then Inr (DictAttr (original_to_normalized_key_dict self))
      else if name = ''normalized_to_original_keys_dict''
        then Inr (SetDictAttr (normalized_to_original_keys_dict self))
      else if name = ''normalize_fn'' \<or> name = ''default_value_fn'' then Inr CallableAttr
      else if name \<in> set method_names then Inr MethodAttr
      else Inl (AttributeError name))"

text \<open>
  \<^verbatim>\<open>
  def keys(self):
      return self.original_to_normalized_keys_dict.keys()
  \<close>
  The name read here is \<^verbatim>\<open>original_to_normalized_keys_dict\<close>; the attribute assigned by
  \<^verbatim>\<open>__init__\<close> and \<^verbatim>\<open>__setitem__\<close> is \<^verbatim>\<open>original_to_normalized_key_dict\<close>.
\<close>

definition keys :: "NormalizingDictionary \<Rightarrow> error + pyval list" where
  "keys self =
     (case getattr self ''original_to_normalized_keys_dict'' of
        Inl e \<Rightarrow> Inl e
      | Inr (DictAttr d) \<Rightarrow> Inr (map fst d)
      | Inr (SetDictAttr d) \<Rightarrow> Inr (map fst d)
      | Inr _ \<Rightarrow> Inl (AttributeError ''keys''))"

text \<open>
  \<^verbatim>\<open>
  def normalized_keys(self):
      return self.store.keys()

  def values(self):
      return self.store.values()
  \<close>
\<close>

definition normalized_keys :: "NormalizingDictionary \<Rightarrow> pyval list" where
  "normalized_keys self = map fst (store self)"

definition values_nd :: "NormalizingDictionary \<Rightarrow> pyval list" where
  "values_nd self = map snd (store self)"

text \<open>
  \<^verbatim>\<open>
  def keys_aligned_with_values(self):
      return [
          self.normalized_to_original_keys_dict[k]
          for k in self.normalized_keys()
      ]
  \<close>
  Each element of the result is the set object held by the \<^verbatim>\<open>defaultdict\<close>; reading a
  normalized key that only \<^verbatim>\<open>__getitem__\<close> has created stores an empty set for it.
\<close>

fun keys_aligned_loop :: "setdict \<Rightarrow> pyval list \<Rightarrow> (error + pyval list) \<times> setdict" where
  "keys_aligned_loop d [] = (Inr [], d)"
| "keys_aligned_loop d (k # ks) =
     (case defaultdict_getitem d k of
        (Inl e, d') \<Rightarrow> (Inl e, d')
      | (Inr s, d') \<Rightarrow>
          (case keys_aligned_loop d' ks of
             (Inl e, d'') \<Rightarrow> (Inl e, d'')
           | (Inr rest, d'') \<Rightarrow> (Inr (PSet s # rest), d'')))"

definition keys_aligned_with_values ::
  "NormalizingDictionary \<Rightarrow> (error + pyval list) \<times> NormalizingDictionary" where
  "keys_aligned_with_values self =
     (case keys_aligned_loop (normalized_to_original_keys_dict self) (normalized_keys self) of
        (r, d) \<Rightarrow> (r, self\<lparr>normalized_to_original_keys_dict := d\<rparr>))"

text \<open>
  \<^verbatim>\<open>
  def items(self):
      return zip(
          self.keys_aligned_with_values(),
          self.values())
  \<close>
\<close>

definition items ::
  "NormalizingDictionary \<Rightarrow> (error + (pyval \<times> pyval) list) \<times> NormalizingDictionary" where
  "items self =
     (case keys_aligned_with_values self of
        (Inl e, self') \<Rightarrow> (Inl e, self')
      | (Inr ks, self') \<Rightarrow> (Inr (zip ks (values_nd self')), self'))"

text \<open>
  \<^verbatim>\<open>
  def invert(self):
      result = NormalizingDictionary(
          normalize_fn=self.normalize_fn,
          default_value_fn=set)
      for (k, v) in self.items():
          if isinstance(v, (list, tuple, set)):
              values = v
          else:
              values = [v]
          for vi in values:
              result[vi].add(k)
      return result
  \<close>
  \<^verbatim>\<open>result[vi]\<close> is the object held in the store of \<^verbatim>\<open>result\<close> under the normalized
  \<^verbatim>\<open>vi\<close>; \<^verbatim>\<open>.add(k)\<close> changes that object, which \<open>store_mutated\<close> writes back.
\<close>

definition store_mutated :: "NormalizingDictionary \<Rightarrow> pyval \<Rightarrow> pyval \<Rightarrow> NormalizingDictionary" where
  "store_mutated self k v' =
     (case normalize_fn self k of
        Inl e \<Rightarrow> self
      | Inr k_normalized \<Rightarrow> self\<lparr>store := AList.update k_normalized v' (store self)\<rparr>)"

fun invert_values ::
  "NormalizingDictionary \<Rightarrow> pyval \<Rightarrow> pyval list \<Rightarrow> error + NormalizingDictionary" where
  "invert_values result k [] = Inr result"
| "invert_values result k (vi # vs) =
     (case getitem result vi of
        (Inl e, _) \<Rightarrow> Inl e
      | (Inr s, result') \<Rightarrow>
          (case method_add s k of
             Inl e \<Rightarrow> Inl e
           | Inr s' \<Rightarrow> invert_values (store_mutated result' vi s') k vs))"

fun invert_items ::
  "NormalizingDictionary \<Rightarrow> (pyval \<times> pyval) list \<Rightarrow> error + NormalizingDictionary" where
  "invert_items result [] = Inr result"
| "invert_items result ((k, v) # rest) =
     (let values = (if is_collection v then elements v else [v])
      in case invert_values result k values of
           Inl e \<Rightarrow> Inl e
         | Inr result' \<Rightarrow> invert_items result' rest)"

definition invert ::
  "NormalizingDictionary \<Rightarrow> (error + NormalizingDictionary) \<times> NormalizingDictionary" where
  "invert self =
     (case init [] (normalize_fn self) (Some set_constructor) of
        Inl e \<Rightarrow> (Inl e, self)
      | Inr result \<Rightarrow>
          (case items self of
             (Inl e, self') \<Rightarrow> (Inl e, self')
           | (Inr its, self') \<Rightarrow> (invert_items result its, self')))"

section \<open>Specification vocabulary and example inputs\<close>

text \<open>
  The value elements of a dictionary value: its elements when it is a list, tuple or
  set, the value itself otherwise (\<^verbatim>\<open>invert\<close> writes this as
  \<^verbatim>\<open>values = v if isinstance(v, (list, tuple, set)) else [v]\<close>).
\<close>

definition value_elements :: "pyval \<Rightarrow> pyval list" where
  "value_elements v = (if is_collection v then elements v else [v])"

text \<open>
  The input domain of \<^const>\<open>invert_dictionary\<close>: a dictionary (its keys are pairwise
  different and hashable) whose values are scalars or list/tuple/set collections, every
  value element being hashable, as a key of the result has to be. A hashable tuple may
  be an element of a collection.
\<close>

definition well_typed_mapping :: "pydict \<Rightarrow> bool" where
  "well_typed_mapping d =
     (distinct (map fst d)
      \<and> list_all (\<lambda>(k, v). hashable k \<and> list_all hashable (value_elements v)) d)"

text \<open>
  The set a \<^verbatim>\<open>defaultdict(set)\<close> holds under a key (empty when the key is absent), and
  the well-formedness of the dictionaries \<^const>\<open>invert_dictionary\<close> builds: keys
  pairwise different, every set non-empty and without repeated elements.
\<close>

definition key_sets :: "setdict \<Rightarrow> pyval \<Rightarrow> pyval set" where
  "key_sets r v = (case map_of r v of None \<Rightarrow> {} | Some ks \<Rightarrow> set ks)"

definition setdict_inv :: "setdict \<Rightarrow> bool" where
  "setdict_inv r =
     (distinct (map fst r) \<and> list_all (\<lambda>(v, ks). ks \<noteq> [] \<and> distinct ks) r)"

text \<open>
  Example inputs: \<^verbatim>\<open>{"x": ["a", "b"], "y": "a"}\<close>, the mapping
  \<^verbatim>\<open>{"x": [("a",)], "y": ("a",)}\<close> in which a tuple is both a value and an element of a
  value, and the containers
  \<^verbatim>\<open>NormalizingDictionary()\<close>, \<^verbatim>\<open>NormalizingDictionary(default_value_fn=set)\<close> and
  \<^verbatim>\<open>NormalizingDictionary(("a", "x"))\<close> as their constructor leaves them.
\<close>

definition example_mapping :: pydict where
  "example_mapping = [(PStr ''x'', PList [PStr ''a'', PStr ''b'']), (PStr ''y'', PStr ''a'')]"

definition nested_mapping :: pydict where
  "nested_mapping =
     [(PStr ''x'', PList [PTuple [PStr ''a'']]), (PStr ''y'', PTuple [PStr ''a''])]"

definition empty_container :: NormalizingDictionary where
  "empty_container =
     \<lparr>store = [],
      original_to_normalized_key_dict = [],
      normalized_to_original_keys_dict = [],
      normalize_fn = normalize_string_pyval,
      default_value_fn = None\<rparr>"

definition set_container :: NormalizingDictionary where
  "set_container =
     \<lparr>store = [],
      original_to_normalized_key_dict = [],
      normalized_to_original_keys_dict = [],
      normalize_fn = normalize_string_pyval,
      default_value_fn = Some set_constructor\<rparr>"

definition one_pair_container :: NormalizingDictionary where
  "one_pair_container =
     \<lparr>store = [(PStr ''A'', PStr ''x'')],
      original_to_normalized_key_dict = [(PStr ''a'', PStr ''A'')],
      normalized_to_original_keys_dict = [(PStr ''A'', [PStr ''a''])],
      normalize_fn = normalize_string_pyval,
      default_value_fn = None\<rparr>"

section \<open>Properties of the string functions\<close>

lemmas str_defs = str_upper_def str_lower_def char_upper_def char_lower_def ascii_lowercase_def
  ascii_uppercase_def str_strip_def isspace_def whitespace_def str_replace_char_def
  default_chars_to_remove_def

text \<open>
  The removal loop of \<^const>\<open>normalize_string\<close> deletes exactly the characters of
  \<open>chars_to_remove\<close>: the test \<^verbatim>\<open>if char in name\<close> only skips a replacement that
  would change nothing.
\<close>

lemma fold_replace_filter:
  "fold (\<lambda>char name. if char \<in> set name then str_replace_char char name else name) cs name
     = filter (\<lambda>c. c \<notin> set cs) name"
proof (induction cs arbitrary: name)
  case Nil
  show ?case by simp
next
  case (Cons a cs)
  have "a \<notin> set name \<Longrightarrow> filter (\<lambda>c. c \<noteq> a) name = name"
    by (rule filter_True) auto
  then have "(if a \<in> set name then str_replace_char a name else name) = filter (\<lambda>c. c \<noteq> a) name"
    by (simp add: str_replace_char_def)
  then show ?case
    using Cons.IH [of "filter (\<lambda>c. c \<noteq> a) name"] by (simp add: conj_commute)
qed

lemma normalize_string_unfold:
  "normalize_string name cs =
     filter (\<lambda>c. c \<notin> set cs)
       (str_upper (if CHR '' '' \<in> set name then str_strip name else name))"
  by (simp add: normalize_string_def fold_replace_filter Let_def)

text \<open>
  Where the two defects of \<^const>\<open>normalize_string\<close> recorded under C6 and C7 cannot
  show: with a space in the string the function does strip, and on a string without a
  space a second normalization changes nothing.
\<close>

lemma char_upper_idem: "char_upper (char_upper c) = char_upper c"
  by (simp add: char_upper_def ascii_lowercase_def ascii_uppercase_def)

lemma char_upper_space: "char_upper c = CHR '' '' \<longleftrightarrow> c = CHR '' ''"
  by (simp add: char_upper_def ascii_lowercase_def ascii_uppercase_def)

lemma space_in_str_upper: "CHR '' '' \<in> set (str_upper name) \<longleftrightarrow> CHR '' '' \<in> set name"
proof
  assume "CHR '' '' \<in> set (str_upper name)"
  then obtain c where "c \<in> set name" "char_upper c = CHR '' ''"
    by (auto simp: str_upper_def)
  then show "CHR '' '' \<in> set name" by (simp add: char_upper_space)
next
  assume "CHR '' '' \<in> set name"
  moreover have "char_upper (CHR '' '') = CHR '' ''" by (simp add: char_upper_space)
  ultimately show "CHR '' '' \<in> set (str_upper name)"
    unfolding str_upper_def set_map by (metis imageI)
qed

lemma filter_upper_twice:
  "filter P (str_upper (filter P (str_upper name))) = filter P (str_upper name)"
  by (induction name) (simp_all add: str_upper_def char_upper_idem)

lemma normalize_string_with_space:
  "CHR '' '' \<in> set name \<Longrightarrow>
     normalize_string name cs = filter (\<lambda>c. c \<notin> set cs) (str_upper (str_strip name))"
  by (simp add: normalize_string_unfold)

lemma normalize_string_idempotent_without_space:
  assumes "CHR '' '' \<notin> set name"
  shows "normalize_string (normalize_string name cs) cs = normalize_string name cs"
proof -
  have once: "normalize_string name cs = filter (\<lambda>c. c \<notin> set cs) (str_upper name)"
    using assms by (simp add: normalize_string_unfold)
  have "CHR '' '' \<notin> set (filter (\<lambda>c. c \<notin> set cs) (str_upper name))"
    using assms by (simp add: space_in_str_upper)
  then have "normalize_string (filter (\<lambda>c. c \<notin> set cs) (str_upper name)) cs
      = filter (\<lambda>c. c \<notin> set cs) (str_upper (filter (\<lambda>c. c \<notin> set cs) (str_upper name)))"
    by (simp only: normalize_string_unfold if_False)
  then show ?thesis by (simp only: once filter_upper_twice)
qed

text \<open>
  Claim C5. On a string without any whitespace character (the empty string is one),
  \<^const>\<open>normalize_string\<close> returns the uppercase of the string with every occurrence of
  each character of \<open>chars_to_remove\<close> deleted; the function has no failing branch.
  The instances \<^verbatim>\<open>normalize_string("el-ElvoY's") = "ELELVOYS"\<close> and
  \<^verbatim>\<open>normalize_string("") = ""\<close> are the witness.
\<close>

theorem normalize_string_without_whitespace:
  assumes "\<forall>c \<in> set name. \<not> isspace c"
  shows "normalize_string name chars_to_remove
           = filter (\<lambda>c. c \<notin> set chars_to_remove) (str_upper name)"
proof -
  have "isspace (CHR '' '')" by (simp add: isspace_def whitespace_def)
  with assms have "CHR '' '' \<notin> set name" by blast
  then show ?thesis by (simp add: normalize_string_unfold)
qed

theorem normalize_string_without_whitespace_witness:
  "\<not> (\<exists>c \<in> set ''el-ElvoY's''. isspace c)
   \<and> normalize_string ''el-ElvoY's'' default_chars_to_remove = ''ELELVOYS''
   \<and> \<not> (\<exists>c \<in> set ''''. isspace c)
   \<and> normalize_string '''' default_chars_to_remove = ''''"
  using normalize_string_without_whitespace [of "''el-ElvoY's''" default_chars_to_remove]
    normalize_string_without_whitespace [of "''''" default_chars_to_remove]
  by (simp add: str_defs)

text \<open>
  Claim C6. A string that contains whitespace is to be stripped at both ends before
  uppercasing and removal. The guard of the function tests for the space character
  only: \<^verbatim>\<open>"abc\n"\<close> contains a whitespace character (the line feed), \<^verbatim>\<open>strip\<close> would
  return \<^verbatim>\<open>"abc"\<close>, and \<^const>\<open>normalize_string\<close> returns \<^verbatim>\<open>"ABC\n"\<close>, line feed
  included, against its docstring ("without any surrounding whitespace").
\<close>

theorem normalize_string_keeps_newline:
  "isspace (CHR 0x0A)
   \<and> str_strip [CHR ''a'', CHR ''b'', CHR ''c'', CHR 0x0A] = ''abc''
   \<and> normalize_string [CHR ''a'', CHR ''b'', CHR ''c'', CHR 0x0A] default_chars_to_remove
       = [CHR ''A'', CHR ''B'', CHR ''C'', CHR 0x0A]"
  by (simp add: normalize_string_def str_defs)

text \<open>
  Claim C7. Normalizing twice is to give what normalizing once gives. The function
  strips before it removes characters, so a removal can uncover whitespace at an end:
  \<^verbatim>\<open>"a -"\<close> becomes \<^verbatim>\<open>"A "\<close>, which still has surrounding whitespace (against the
  docstring) and which a second call turns into \<^verbatim>\<open>"A"\<close>.
\<close>

theorem normalize_string_twice_differs:
  "normalize_string ''a -'' default_chars_to_remove = ''A ''
   \<and> normalize_string (normalize_string ''a -'' default_chars_to_remove) default_chars_to_remove
       = ''A''"
  by (simp add: normalize_string_def str_defs)

text \<open>
  The removal loops of \<^const>\<open>expand_strings\<close>: after the loop over \<open>cs\<close>, the set
  holds every member with any subset of the characters of \<open>cs\<close> deleted.
\<close>

lemma fold_removal_member:
  assumes "T \<subseteq> set cs" and "x \<in> R"
  shows "filter (\<lambda>c. c \<notin> T) x \<in> fold (\<lambda>char rs. rs \<union> str_replace_char char ` rs) cs R"
  using assms
proof (induction cs arbitrary: R T x)
  case Nil
  then show ?case by simp
next
  case (Cons a cs)
  let ?R = "R \<union> str_replace_char a ` R"
  show ?case
  proof (cases "a \<in> T")
    case True
    have sub: "T - {a} \<subseteq> set cs" using Cons.prems(1) by auto
    have mem: "str_replace_char a x \<in> ?R" using Cons.prems(2) by simp
    have "filter (\<lambda>c. c \<notin> T - {a}) (str_replace_char a x) = filter (\<lambda>c. c \<notin> T) x"
      using True by (auto simp: str_replace_char_def intro: filter_cong)
    with Cons.IH [OF sub mem] show ?thesis by simp
  next
    case False
    then have sub: "T \<subseteq> set cs" using Cons.prems(1) by auto
    have mem: "x \<in> ?R" using Cons.prems(2) by simp
    from Cons.IH [OF sub mem] show ?thesis by simp
  qed
qed

lemma expand_strings_member:
  assumes "T \<subseteq> set cs" and "s \<in> set names"
  shows "filter (\<lambda>c. c \<notin> T) s \<in> expand_strings names cs"
    and "str_upper (filter (\<lambda>c. c \<notin> T) s) \<in> expand_strings names cs"
    and "str_lower (filter (\<lambda>c. c \<notin> T) s) \<in> expand_strings names cs"
  using fold_removal_member [OF assms(1), of s "set names"] assms(2)
  by (simp_all add: expand_strings_def Let_def)

text \<open>
  Claim C8. For every string \<open>s\<close> and every subset \<open>S\<close> of the default removal
  characters, \<^verbatim>\<open>expand_strings(s)\<close> contains \<open>s\<close> itself, \<open>s\<close> with every occurrence
  of each character of \<open>S\<close> deleted, and the uppercase and the lowercase of that
  variant. The witness is \<^verbatim>\<open>expand_strings("AB-cd")\<close> with its six strings.
\<close>

theorem expand_strings_membership:
  assumes "S \<subseteq> set default_chars_to_remove"
  shows "s \<in> expand_strings [s] default_chars_to_remove
         \<and> filter (\<lambda>c. c \<notin> S) s \<in> expand_strings [s] default_chars_to_remove
         \<and> str_upper (filter (\<lambda>c. c \<notin> S) s) \<in> expand_strings [s] default_chars_to_remove
         \<and> str_lower (filter (\<lambda>c. c \<notin> S) s) \<in> expand_strings [s] default_chars_to_remove"
  using expand_strings_member [OF assms, of s "[s]"]
    expand_strings_member(1) [of "{}" default_chars_to_remove s "[s]"]
  by simp

theorem expand_strings_membership_witness:
  "{CHR ''-''} \<subseteq> set default_chars_to_remove \<and> {} \<subseteq> set default_chars_to_remove
   \<and> {''AB-cd'', ''ABcd'', ''ABCD'', ''abcd'', ''AB-CD'', ''ab-cd''}
        \<subseteq> expand_strings [''AB-cd''] default_chars_to_remove"
  using expand_strings_membership [of "{CHR ''-''}" "''AB-cd''"]
    expand_strings_membership [of "{}" "''AB-cd''"]
  by (simp add: str_upper_def str_lower_def char_upper_def char_lower_def ascii_lowercase_def
      ascii_uppercase_def default_chars_to_remove_def)

section \<open>Properties of \<^verbatim>\<open>invert_dictionary\<close>\<close>

text \<open>
  A value that is not a list, tuple or set is hashable (the values of the model are
  None, integers and strings), so a well-typed mapping never makes hashing fail.
\<close>

lemma scalar_hashable: "\<not> is_collection v \<Longrightarrow> hashable v"
  by (cases v) simp_all

lemma well_typed_mapping_hashable:
  assumes "well_typed_mapping d"
  shows "\<forall>(k, v) \<in> set d. hashable k \<and> (\<forall>vi \<in> set (value_elements v). hashable vi)"
  using assms by (auto simp: well_typed_mapping_def list_all_iff)

lemma setdict_inv_map_of:
  "setdict_inv r \<Longrightarrow> map_of r v = Some ks \<Longrightarrow> ks \<noteq> [] \<and> distinct ks"
  by (auto simp: setdict_inv_def list_all_iff dest!: map_of_SomeD)

lemma setdict_inv_update:
  assumes "setdict_inv r" and "ks \<noteq> []" and "distinct ks"
  shows "setdict_inv (AList.update v ks r)"
proof -
  have "set (AList.update v ks r) \<subseteq> insert (v, ks) (set r)"
    by (induction r) auto
  with assms show ?thesis
    by (auto simp: setdict_inv_def list_all_iff distinct_update)
qed

text \<open>
  One \<^verbatim>\<open>result[v].add(k)\<close>: it succeeds on hashable arguments, keeps the dictionary
  well formed and adds \<open>k\<close> to the set under \<open>v\<close>, leaving every other set alone.
\<close>

lemma defaultdict_add_step:
  assumes "setdict_inv r" and "hashable v" and "hashable k"
  shows "\<exists>r'. defaultdict_add r v k = Inr r' \<and> setdict_inv r'
           \<and> key_sets r' = (key_sets r)(v := insert k (key_sets r v))"
proof (cases "map_of r v")
  case None
  have eq: "defaultdict_add r v k = Inr (AList.update v [k] (AList.update v [] r))"
    using assms(2,3) None by (simp add: defaultdict_add_def defaultdict_getitem_def set_add_def)
  have upd: "AList.update v [k] (AList.update v [] r) = AList.update v [k] r"
    by (simp add: update_last)
  have "setdict_inv (AList.update v [k] r)"
    by (rule setdict_inv_update [OF assms(1)]) simp_all
  moreover have "key_sets (AList.update v [k] r) = (key_sets r)(v := insert k (key_sets r v))"
    using None by (auto simp: key_sets_def update_conv' fun_eq_iff)
  ultimately show ?thesis using eq upd by simp
next
  case (Some s)
  let ?s' = "if k \<in> set s then s else s @ [k]"
  have eq: "defaultdict_add r v k = Inr (AList.update v ?s' r)"
    using assms(2,3) Some by (simp add: defaultdict_add_def defaultdict_getitem_def set_add_def)
  from setdict_inv_map_of [OF assms(1) Some] have "?s' \<noteq> []" "distinct ?s'" by auto
  then have "setdict_inv (AList.update v ?s' r)"
    by (rule setdict_inv_update [OF assms(1)])
  moreover have "key_sets (AList.update v ?s' r) = (key_sets r)(v := insert k (key_sets r v))"
    using Some by (auto simp: key_sets_def update_conv' fun_eq_iff)
  ultimately show ?thesis using eq by simp
qed

text \<open>
  The inner loop adds \<open>k\<close> under every element it visits; the outer loop does so for
  every item, by induction over the items with the dictionary generalised.
\<close>

lemma invert_dictionary_values_step:
  assumes "setdict_inv r" and "hashable k" and "\<forall>vi \<in> set vs. hashable vi"
  shows "\<exists>r'. invert_dictionary_values r k vs = Inr r' \<and> setdict_inv r'
           \<and> (\<forall>w. key_sets r' w = (if w \<in> set vs then insert k (key_sets r w) else key_sets r w))"
  using assms
proof (induction vs arbitrary: r)
  case Nil
  then show ?case by simp
next
  case (Cons vi vs)
  from Cons.prems have hv: "hashable vi" and hvs: "\<forall>x \<in> set vs. hashable x" by simp_all
  from defaultdict_add_step [OF Cons.prems(1) hv Cons.prems(2)] obtain r1 where
    r1: "defaultdict_add r vi k = Inr r1" "setdict_inv r1"
      "key_sets r1 = (key_sets r)(vi := insert k (key_sets r vi))"
    by blast
  from Cons.IH [OF r1(2) Cons.prems(2) hvs] obtain r2 where
    r2: "invert_dictionary_values r1 k vs = Inr r2" "setdict_inv r2"
      "\<forall>w. key_sets r2 w = (if w \<in> set vs then insert k (key_sets r1 w) else key_sets r1 w)"
    by blast
  have "invert_dictionary_values r k (vi # vs) = Inr r2" using r1(1) r2(1) by simp
  moreover have "\<forall>w. key_sets r2 w
      = (if w \<in> set (vi # vs) then insert k (key_sets r w) else key_sets r w)"
    using r2(3) r1(3) by auto
  ultimately show ?case using r2(2) by blast
qed

lemma invert_dictionary_branch:
  "(if is_collection v then invert_dictionary_values r k (elements v) else defaultdict_add r v k)
     = invert_dictionary_values r k (value_elements v)"
  by (simp add: value_elements_def split: sum.split)

lemma invert_dictionary_items_step:
  assumes "setdict_inv r"
    and "\<forall>(k, v) \<in> set d. hashable k \<and> (\<forall>vi \<in> set (value_elements v). hashable vi)"
  shows "\<exists>r'. invert_dictionary_items r d = Inr r' \<and> setdict_inv r'
           \<and> (\<forall>w. key_sets r' w
                 = key_sets r w \<union> {k. \<exists>v. (k, v) \<in> set d \<and> w \<in> set (value_elements v)})"
  using assms
proof (induction d arbitrary: r)
  case Nil
  then show ?case by simp
next
  case (Cons p d)
  obtain k v where p: "p = (k, v)" by (cases p)
  from Cons.prems(2) p have hk: "hashable k" and hv: "\<forall>vi \<in> set (value_elements v). hashable vi"
    and rest: "\<forall>(k, v) \<in> set d. hashable k \<and> (\<forall>vi \<in> set (value_elements v). hashable vi)"
    by auto
  from invert_dictionary_values_step [OF Cons.prems(1) hk hv] obtain r1 where
    r1: "invert_dictionary_values r k (value_elements v) = Inr r1" "setdict_inv r1"
      "\<forall>w. key_sets r1 w
         = (if w \<in> set (value_elements v) then insert k (key_sets r w) else key_sets r w)"
    by blast
  from Cons.IH [OF r1(2) rest] obtain r2 where
    r2: "invert_dictionary_items r1 d = Inr r2" "setdict_inv r2"
      "\<forall>w. key_sets r2 w
         = key_sets r1 w \<union> {k. \<exists>v. (k, v) \<in> set d \<and> w \<in> set (value_elements v)}"
    by blast
  have "invert_dictionary_items r (p # d) = Inr r2"
    using r1(1) r2(1) by (simp add: p invert_dictionary_branch)
  moreover have "\<forall>w. key_sets r2 w
      = key_sets r w \<union> {k'. \<exists>v'. (k', v') \<in> set (p # d) \<and> w \<in> set (value_elements v')}"
    using r2(3) r1(3) by (auto simp: p)
  ultimately show ?case using r2(2) by blast
qed

text \<open>
  Claim C9, as amended. On a mapping whose values are scalars or list/tuple/set
  collections of hashable elements, \<^const>\<open>invert_dictionary\<close> returns a dictionary
  whose keys are the distinct value elements of \<open>d\<close> and which maps each of them,
  \<open>v\<close>, to exactly the set of the keys \<open>k\<close> such that \<open>d[k]\<close> is a collection
  with \<open>v\<close> among its members, or \<open>d[k]\<close> is not a list, tuple or set and equals
  \<open>v\<close>. The witness is
  \<^verbatim>\<open>invert_dictionary({"x": ["a","b"], "y": "a"}) = {"a": {"x","y"}, "b": {"x"}}\<close>.
\<close>

theorem invert_dictionary_correct:
  assumes "well_typed_mapping d"
  shows "\<exists>result. invert_dictionary d = Inr result
           \<and> distinct (map fst result)
           \<and> fst ` set result
               = {v. \<exists>k val. map_of d k = Some val \<and> v \<in> set (value_elements val)}
           \<and> (\<forall>v ks. map_of result v = Some ks \<longrightarrow>
                 distinct ks
                 \<and> set ks = {k. \<exists>val. map_of d k = Some val
                                  \<and> (if is_collection val then v \<in> set (elements val)
                                      else val = v)})"
proof -
  have dist: "distinct (map fst d)" using assms by (simp add: well_typed_mapping_def)
  then have mem: "\<And>k val. map_of d k = Some val \<longleftrightarrow> (k, val) \<in> set d" by simp
  have inv0: "setdict_inv []" by (simp add: setdict_inv_def)
  from invert_dictionary_items_step [OF inv0 well_typed_mapping_hashable [OF assms]]
  obtain result where
    res: "invert_dictionary_items [] d = Inr result" "setdict_inv result"
      "\<forall>w. key_sets result w = {k. \<exists>v. (k, v) \<in> set d \<and> w \<in> set (value_elements v)}"
    by (auto simp: key_sets_def)
  have keys: "fst ` set result
      = {v. \<exists>k val. map_of d k = Some val \<and> v \<in> set (value_elements val)}"
  proof (intro set_eqI iffI)
    fix v assume "v \<in> fst ` set result"
    then obtain ks where ks: "map_of result v = Some ks"
      by (metis domD dom_map_of_conv_image_fst)
    with setdict_inv_map_of [OF res(2) ks] have "key_sets result v \<noteq> {}"
      by (simp add: key_sets_def)
    with res(3) show "v \<in> {v. \<exists>k val. map_of d k = Some val \<and> v \<in> set (value_elements val)}"
      by (auto simp: mem)
  next
    fix v assume "v \<in> {v. \<exists>k val. map_of d k = Some val \<and> v \<in> set (value_elements val)}"
    with res(3) have "key_sets result v \<noteq> {}" by (auto simp: mem)
    then have "map_of result v \<noteq> None" by (auto simp: key_sets_def)
    then show "v \<in> fst ` set result"
      by (metis domIff dom_map_of_conv_image_fst)
  qed
  have vals: "distinct ks \<and> set ks = {k. \<exists>val. map_of d k = Some val
                                  \<and> (if is_collection val then v \<in> set (elements val)
                                      else val = v)}"
    if ks: "map_of result v = Some ks" for v ks
  proof -
    from setdict_inv_map_of [OF res(2) ks] have dk: "distinct ks" by simp
    have set_ks: "set ks = {k. \<exists>val. (k, val) \<in> set d \<and> v \<in> set (value_elements val)}"
      using res(3) [rule_format, of v] ks by (simp add: key_sets_def)
    have "v \<in> set (value_elements val)
        \<longleftrightarrow> (if is_collection val then v \<in> set (elements val) else val = v)" for val
      by (auto simp: value_elements_def)
    with set_ks dk show ?thesis by (simp add: mem)
  qed
  show ?thesis
  proof (intro exI conjI allI impI)
    show "invert_dictionary d = Inr result" using res(1) by (simp add: invert_dictionary_def)
    show "distinct (map fst result)" using res(2) by (simp add: setdict_inv_def)
    show "fst ` set result
        = {v. \<exists>k val. map_of d k = Some val \<and> v \<in> set (value_elements val)}"
      by (rule keys)
  next
    fix v ks assume "map_of result v = Some ks"
    from vals [OF this]
    show "distinct ks"
      and "set ks = {k. \<exists>val. map_of d k = Some val
                        \<and> (if is_collection val then v \<in> set (elements val) else val = v)}"
      by simp_all
  qed
qed

theorem invert_dictionary_correct_witness:
  "well_typed_mapping example_mapping
   \<and> invert_dictionary example_mapping
       = Inr [(PStr ''a'', [PStr ''x'', PStr ''y'']), (PStr ''b'', [PStr ''x''])]
   \<and> (\<exists>result. invert_dictionary example_mapping = Inr result
         \<and> fst ` set result = {PStr ''a'', PStr ''b''}
         \<and> (\<exists>ks. map_of result (PStr ''a'') = Some ks \<and> set ks = {PStr ''x'', PStr ''y''})
         \<and> (\<exists>ks. map_of result (PStr ''b'') = Some ks \<and> set ks = {PStr ''x''}))"
proof -
  have wt: "well_typed_mapping example_mapping"
    by (simp add: well_typed_mapping_def example_mapping_def value_elements_def)
  have ev: "invert_dictionary example_mapping
       = Inr [(PStr ''a'', [PStr ''x'', PStr ''y'']), (PStr ''b'', [PStr ''x''])]"
    by (simp add: invert_dictionary_def example_mapping_def defaultdict_add_def
        defaultdict_getitem_def set_add_def)
  from invert_dictionary_correct [OF wt] obtain result where
    r: "invert_dictionary example_mapping = Inr result"
      "fst ` set result
         = {v. \<exists>k val. map_of example_mapping k = Some val \<and> v \<in> set (value_elements val)}"
    by blast
  with ev have "result = [(PStr ''a'', [PStr ''x'', PStr ''y'']), (PStr ''b'', [PStr ''x''])]"
    by simp
  with wt ev r(1) show ?thesis by auto
qed

text \<open>
  Claim C9, as stated, counts \<open>k\<close> among the keys of \<open>v\<close> whenever \<open>d[k]\<close> equals
  \<open>v\<close>. A tuple value is a collection for \<^verbatim>\<open>isinstance(v, (list, tuple, set))\<close>, so
  its key goes to its elements and not to the tuple itself: in
  \<^verbatim>\<open>{"x": [("a",)], "y": ("a",)}\<close> the value of \<^verbatim>\<open>"y"\<close> equals the value element
  \<^verbatim>\<open>("a",)\<close>, and the result is \<^verbatim>\<open>{("a",): {"x"}, "a": {"y"}}\<close>, where \<^verbatim>\<open>"y"\<close> is not
  among the keys of \<^verbatim>\<open>("a",)\<close>.
\<close>

theorem invert_dictionary_tuple_value_counterexample:
  "well_typed_mapping nested_mapping
   \<and> map_of nested_mapping (PStr ''y'') = Some (PTuple [PStr ''a''])
   \<and> invert_dictionary nested_mapping
       = Inr [(PTuple [PStr ''a''], [PStr ''x'']), (PStr ''a'', [PStr ''y''])]
   \<and> PStr ''y'' \<notin> set [PStr ''x'']"
  by (simp add: well_typed_mapping_def nested_mapping_def value_elements_def
      invert_dictionary_def defaultdict_add_def defaultdict_getitem_def set_add_def)

section \<open>Properties of \<^verbatim>\<open>NormalizingDictionary\<close>\<close>

lemmas str_defs2 = normalize_string_def str_defs

text \<open>
  The successful path of \<^verbatim>\<open>__setitem__\<close> and the three paths of \<^verbatim>\<open>__getitem__\<close>.
\<close>

lemma setitem_success:
  assumes "normalize_fn self k = Inr n" and "hashable k" and "hashable n"
  shows "\<exists>self'. setitem self k v = (Inr (), self')
           \<and> store self' = AList.update n v (store self)
           \<and> normalize_fn self' = normalize_fn self
           \<and> default_value_fn self' = default_value_fn self"
  using assms
  by (simp add: setitem_def defaultdict_getitem_def set_add_def Let_def split: option.split)

lemma getitem_present:
  assumes "normalize_fn self k = Inr n" and "hashable n" and "map_of (store self) n = Some v"
  shows "getitem self k = (Inr v, self)"
  using assms by (simp add: getitem_def)

lemma getitem_absent_no_factory:
  assumes "normalize_fn self k = Inr n" and "hashable n" and "map_of (store self) n = None"
    and "default_value_fn self = None"
  shows "getitem self k = (Inl (KeyError k), self)"
  using assms by (simp add: getitem_def)

lemma getitem_absent_factory:
  assumes "normalize_fn self k = Inr n" and "hashable n" and "map_of (store self) n = None"
    and "default_value_fn self = Some f"
  shows "getitem self k = (Inr (f ()), self\<lparr>store := AList.update n (f ()) (store self)\<rparr>)"
  using assms by (simp add: getitem_def Let_def)

lemma filter_update_distinct:
  "distinct (map fst al) \<Longrightarrow> filter (\<lambda>p. fst p = k) (AList.update k v al) = [(k, v)]"
proof (induction al)
  case Nil
  show ?case by simp
next
  case (Cons p al)
  show ?case
  proof (cases "fst p = k")
    case True
    with Cons.prems have "k \<notin> fst ` set al" by auto
    then have "filter (\<lambda>p. fst p = k) al = []" by (auto simp: filter_empty_conv)
    with True show ?thesis by (cases p) simp
  next
    case False
    with Cons show ?thesis by (cases p) simp
  qed
qed

text \<open>
  Claim C1. Last write wins under a normalization collision: when \<open>k1\<close> and \<open>k2\<close>
  normalize to the same key \<open>n\<close>, both assignments succeed, a lookup of \<open>k2\<close> after
  the first assignment returns \<open>v1\<close>, lookups of \<open>k1\<close> and of \<open>k2\<close> after the
  second return \<open>v2\<close>, and the store holds exactly one entry for \<open>n\<close>. The witness
  assigns \<^verbatim>\<open>"Foo-Bar"\<close> and looks \<^verbatim>\<open>"foobar"\<close> up; both normalize to \<^verbatim>\<open>"FOOBAR"\<close>.
\<close>

theorem setitem_last_write_wins:
  assumes "normalize_fn self k1 = Inr n" and "normalize_fn self k2 = Inr n"
    and "hashable k1" and "hashable k2" and "hashable n"
    and "distinct (map fst (store self))"
  shows "\<exists>d1 d2. setitem self k1 v1 = (Inr (), d1) \<and> setitem d1 k2 v2 = (Inr (), d2)
           \<and> getitem d1 k2 = (Inr v1, d1)
           \<and> getitem d2 k1 = (Inr v2, d2) \<and> getitem d2 k2 = (Inr v2, d2)
           \<and> filter (\<lambda>p. fst p = n) (store d2) = [(n, v2)]"
proof -
  from setitem_success [OF assms(1,3,5), of v1] obtain d1 where
    d1: "setitem self k1 v1 = (Inr (), d1)" "store d1 = AList.update n v1 (store self)"
      "normalize_fn d1 = normalize_fn self"
    by blast
  have n1: "normalize_fn d1 k1 = Inr n" "normalize_fn d1 k2 = Inr n"
    using d1(3) assms(1,2) by simp_all
  from setitem_success [OF n1(2) assms(4,5), of v2] obtain d2 where
    d2: "setitem d1 k2 v2 = (Inr (), d2)" "store d2 = AList.update n v2 (store d1)"
      "normalize_fn d2 = normalize_fn d1"
    by blast
  have n2: "normalize_fn d2 k1 = Inr n" "normalize_fn d2 k2 = Inr n"
    using d2(3) n1 by simp_all
  have m1: "map_of (store d1) n = Some v1" by (simp add: d1(2) update_conv')
  have m2: "map_of (store d2) n = Some v2" by (simp add: d2(2) update_conv')
  have dist: "distinct (map fst (store d1))" by (simp add: d1(2) distinct_update assms(6))
  have one: "filter (\<lambda>p. fst p = n) (store d2) = [(n, v2)]"
    unfolding d2(2) by (rule filter_update_distinct [OF dist])
  show ?thesis
    using d1(1) d2(1) getitem_present [OF n1(2) assms(5) m1]
      getitem_present [OF n2(1) assms(5) m2] getitem_present [OF n2(2) assms(5) m2] one
    by blast
qed

theorem setitem_last_write_wins_witness:
  "init [] normalize_string_pyval None = Inr empty_container
   \<and> normalize_string_pyval (PStr ''Foo-Bar'') = Inr (PStr ''FOOBAR'')
   \<and> normalize_string_pyval (PStr ''foobar'') = Inr (PStr ''FOOBAR'')
   \<and> (\<exists>d1 d2. setitem empty_container (PStr ''Foo-Bar'') (PInt 1) = (Inr (), d1)
         \<and> setitem d1 (PStr ''foobar'') (PInt 2) = (Inr (), d2)
         \<and> getitem d1 (PStr ''foobar'') = (Inr (PInt 1), d1)
         \<and> getitem d2 (PStr ''Foo-Bar'') = (Inr (PInt 2), d2)
         \<and> getitem d2 (PStr ''foobar'') = (Inr (PInt 2), d2)
         \<and> filter (\<lambda>p. fst p = PStr ''FOOBAR'') (store d2) = [(PStr ''FOOBAR'', PInt 2)])"
proof -
  have a: "normalize_string_pyval (PStr ''Foo-Bar'') = Inr (PStr ''FOOBAR'')"
    by (simp add: str_defs2)
  have b: "normalize_string_pyval (PStr ''foobar'') = Inr (PStr ''FOOBAR'')"
    by (simp add: str_defs2)
  have c: "init [] normalize_string_pyval None = Inr empty_container"
    by (simp add: init_def empty_container_def)
  have nf: "normalize_fn empty_container = normalize_string_pyval"
    by (simp add: empty_container_def)
  have st: "distinct (map fst (store empty_container))"
    by (simp add: empty_container_def)
  show ?thesis
    using setitem_last_write_wins [of empty_container "PStr ''Foo-Bar''" "PStr ''FOOBAR''"
        "PStr ''foobar''" "PInt 1" "PInt 2"] a b c nf st
    by simp
qed

text \<open>
  Claim C2. Lookup of a key whose normalized form is absent from the store. Without a
  factory it fails with \<open>KeyError\<close>. With a factory \<open>f\<close> it returns \<open>f ()\<close> and
  stores it under the normalized key; every later lookup of the key returns that stored
  value and leaves the container as it is, whatever factory is then installed (the
  factory is not consulted again). With \<^verbatim>\<open>set\<close> as the factory the value is the empty
  set.
\<close>

theorem getitem_absent_key:
  assumes "normalize_fn self k = Inr n" and "hashable n" and "map_of (store self) n = None"
  shows "(default_value_fn self = None \<longrightarrow> fst (getitem self k) = Inl (KeyError k))
       \<and> (\<forall>f. default_value_fn self = Some f \<longrightarrow>
            (\<exists>self'. getitem self k = (Inr (f ()), self')
               \<and> store self' = AList.update n (f ()) (store self)
               \<and> map_of (store self') n = Some (f ())
               \<and> (\<forall>g. getitem (self'\<lparr>default_value_fn := g\<rparr>) k
                      = (Inr (f ()), self'\<lparr>default_value_fn := g\<rparr>))))
       \<and> (default_value_fn self = Some set_constructor \<longrightarrow>
            fst (getitem self k) = Inr (PSet []))"
proof (intro conjI impI allI)
  assume "default_value_fn self = None"
  from getitem_absent_no_factory [OF assms this]
  show "fst (getitem self k) = Inl (KeyError k)" by simp
next
  fix f
  assume f: "default_value_fn self = Some f"
  let ?self' = "self\<lparr>store := AList.update n (f ()) (store self)\<rparr>"
  have nf: "\<And>g. normalize_fn (?self'\<lparr>default_value_fn := g\<rparr>) k = Inr n"
    using assms(1) by simp
  have m: "\<And>g. map_of (store (?self'\<lparr>default_value_fn := g\<rparr>)) n = Some (f ())"
    by (simp add: update_conv')
  have again: "\<And>g. getitem (?self'\<lparr>default_value_fn := g\<rparr>) k
                  = (Inr (f ()), ?self'\<lparr>default_value_fn := g\<rparr>)"
    by (rule getitem_present [OF nf assms(2) m])
  show "\<exists>self'. getitem self k = (Inr (f ()), self')
           \<and> store self' = AList.update n (f ()) (store self)
           \<and> map_of (store self') n = Some (f ())
           \<and> (\<forall>g. getitem (self'\<lparr>default_value_fn := g\<rparr>) k
                  = (Inr (f ()), self'\<lparr>default_value_fn := g\<rparr>))"
    using getitem_absent_factory [OF assms f] again
    by (intro exI [of _ ?self']) (simp add: update_conv')
next
  assume "default_value_fn self = Some set_constructor"
  from getitem_absent_factory [OF assms this]
  show "fst (getitem self k) = Inr (PSet [])" by (simp add: set_constructor_def)
qed

theorem getitem_absent_key_witness:
  "init [] normalize_string_pyval None = Inr empty_container
   \<and> init [] normalize_string_pyval (Some set_constructor) = Inr set_container
   \<and> fst (getitem empty_container (PStr ''Foo-Bar'')) = Inl (KeyError (PStr ''Foo-Bar''))
   \<and> (\<exists>self'. getitem set_container (PStr ''Foo-Bar'') = (Inr (PSet []), self')
          \<and> store self' = [(PStr ''FOOBAR'', PSet [])]
          \<and> getitem self' (PStr ''Foo-Bar'') = (Inr (PSet []), self')
          \<and> getitem (self'\<lparr>default_value_fn := None\<rparr>) (PStr ''Foo-Bar'')
               = (Inr (PSet []), self'\<lparr>default_value_fn := None\<rparr>))"
proof -
  have a: "normalize_string_pyval (PStr ''Foo-Bar'') = Inr (PStr ''FOOBAR'')"
    by (simp add: str_defs2)
  have i1: "init [] normalize_string_pyval None = Inr empty_container"
    by (simp add: init_def empty_container_def)
  have i2: "init [] normalize_string_pyval (Some set_constructor) = Inr set_container"
    by (simp add: init_def set_container_def)
  have e: "normalize_fn empty_container (PStr ''Foo-Bar'') = Inr (PStr ''FOOBAR'')"
    "map_of (store empty_container) (PStr ''FOOBAR'') = None"
    "default_value_fn empty_container = None"
    using a by (simp_all add: empty_container_def)
  have s: "normalize_fn set_container (PStr ''Foo-Bar'') = Inr (PStr ''FOOBAR'')"
    "map_of (store set_container) (PStr ''FOOBAR'') = None"
    "default_value_fn set_container = Some set_constructor"
    "store set_container = []"
    using a by (simp_all add: set_container_def)
  have h: "hashable (PStr ''FOOBAR'')" by simp
  from getitem_absent_key [OF e(1) h e(2)] e(3)
  have k: "fst (getitem empty_container (PStr ''Foo-Bar'')) = Inl (KeyError (PStr ''Foo-Bar''))"
    by simp
  from getitem_absent_key [OF s(1) h s(2)] s(3)
  obtain self' where
    g: "getitem set_container (PStr ''Foo-Bar'') = (Inr (set_constructor ()), self')"
      "store self' = AList.update (PStr ''FOOBAR'') (set_constructor ()) (store set_container)"
      "\<And>g. getitem (self'\<lparr>default_value_fn := g\<rparr>) (PStr ''Foo-Bar'')
                  = (Inr (set_constructor ()), self'\<lparr>default_value_fn := g\<rparr>)"
    by blast
  have same: "self'\<lparr>default_value_fn := default_value_fn self'\<rparr> = self'" by simp
  from g(3) [of "default_value_fn self'"] same
  have g4: "getitem self' (PStr ''Foo-Bar'') = (Inr (set_constructor ()), self')" by simp
  show ?thesis
    using i1 i2 k g(1) g(2) g(3) [of None] g4 s(4)
    by (simp add: set_constructor_def)
qed

text \<open>
  Claim C10. Without a factory, the lookup of a key whose normalized form is absent
  raises \<open>KeyError\<close> carrying the key as it was given, not its normalized form, and
  leaves the store and both auxiliary dictionaries unchanged.
\<close>

theorem getitem_keyerror_unchanged:
  assumes "default_value_fn self = None"
    and "normalize_fn self k = Inr n" and "hashable n" and "map_of (store self) n = None"
  shows "\<exists>self'. getitem self k = (Inl (KeyError k), self')
           \<and> store self' = store self
           \<and> original_to_normalized_key_dict self' = original_to_normalized_key_dict self
           \<and> normalized_to_original_keys_dict self' = normalized_to_original_keys_dict self"
  using getitem_absent_no_factory [OF assms(2,3,4,1)] by simp

theorem getitem_keyerror_unchanged_witness:
  "\<exists>d self'. init [(PStr ''a_b'', PInt 1)] normalize_string_pyval None = Inr d
      \<and> getitem d (PStr ''Foo-Bar'') = (Inl (KeyError (PStr ''Foo-Bar'')), self')
      \<and> KeyError (PStr ''Foo-Bar'') \<noteq> KeyError (PStr ''FOOBAR'')
      \<and> store self' = [(PStr ''AB'', PInt 1)]
      \<and> original_to_normalized_key_dict self' = [(PStr ''a_b'', PStr ''AB'')]
      \<and> normalized_to_original_keys_dict self' = [(PStr ''AB'', [PStr ''a_b''])]"
proof -
  let ?d = "\<lparr>store = [(PStr ''AB'', PInt 1)],
     original_to_normalized_key_dict = [(PStr ''a_b'', PStr ''AB'')],
     normalized_to_original_keys_dict = [(PStr ''AB'', [PStr ''a_b''])],
     normalize_fn = normalize_string_pyval, default_value_fn = None\<rparr>"
  have i: "init [(PStr ''a_b'', PInt 1)] normalize_string_pyval None = Inr ?d"
    by (simp add: init_def setitem_def defaultdict_getitem_def set_add_def str_defs2)
  have a: "normalize_fn ?d (PStr ''Foo-Bar'') = Inr (PStr ''FOOBAR'')"
    by (simp add: str_defs2)
  have h: "hashable (PStr ''FOOBAR'')" by simp
  have m: "map_of (store ?d) (PStr ''FOOBAR'') = None" by simp
  have f: "default_value_fn ?d = None" by simp
  from getitem_keyerror_unchanged [OF f a h m] i
  show ?thesis by simp
qed

text \<open>
  Claim C4. \<^verbatim>\<open>keys()\<close> is to return the original keys ever assigned. It reads the
  attribute \<^verbatim>\<open>original_to_normalized_keys_dict\<close>, which no instance has (the attribute
  is named \<^verbatim>\<open>original_to_normalized_key_dict\<close>), so it raises AttributeError on every
  container.
\<close>

theorem keys_raises_attribute_error:
  "keys self = Inl (AttributeError ''original_to_normalized_keys_dict'')"
  by (simp add: keys_def getattr_def method_names_def)

text \<open>
  \<^verbatim>\<open>invert\<close> adds to a set the key it gets from \<^verbatim>\<open>items()\<close>, which is itself a set
  (\<^verbatim>\<open>keys_aligned_with_values\<close> returns the sets of original keys, not one original
  key as its docstring says). A set is unhashable, so the first \<^verbatim>\<open>result[vi].add(k)\<close>
  raises: \<^verbatim>\<open>invert\<close> fails on every container that stores a scalar or a non-empty
  collection.
\<close>

lemma invert_values_set_key_fails:
  "\<exists>e. invert_values result (PSet ks) (vi # vs) = Inl e"
proof (cases "getitem result vi")
  case (Pair r result')
  show ?thesis
  proof (cases r)
    case (Inl e)
    with Pair show ?thesis by simp
  next
    case (Inr s)
    have "\<exists>e. method_add s (PSet ks) = Inl e"
      by (cases s) (simp_all add: set_add_def)
    with Pair Inr show ?thesis by auto
  qed
qed

lemma keys_aligned_loop_sets:
  "keys_aligned_loop d ks = (Inr xs, d') \<Longrightarrow>
     length xs = length ks \<and> list_all (\<lambda>x. \<exists>s. x = PSet s) xs"
proof (induction ks arbitrary: d xs d')
  case Nil
  then show ?case by simp
next
  case (Cons k ks)
  from Cons.prems obtain s d1 rest where
    "defaultdict_getitem d k = (Inr s, d1)" "keys_aligned_loop d1 ks = (Inr rest, d')"
    "xs = PSet s # rest"
    by (auto split: prod.splits sum.splits)
  with Cons.IH [of d1 rest d'] show ?case by simp
qed

lemma invert_items_fails:
  assumes "list_all (\<lambda>(k, v). \<exists>s. k = PSet s) its"
    and "\<exists>p \<in> set its. value_elements (snd p) \<noteq> []"
  shows "\<exists>e. invert_items result its = Inl e"
  using assms
proof (induction its arbitrary: result)
  case Nil
  then show ?case by simp
next
  case (Cons p its)
  obtain k v where p: "p = (k, v)" by (cases p)
  with Cons.prems(1) obtain s where k: "k = PSet s" by auto
  show ?case
  proof (cases "value_elements v")
    case Nil
    with Cons.prems(2) p have ex: "\<exists>p \<in> set its. value_elements (snd p) \<noteq> []" by simp
    from Cons.prems(1) have "list_all (\<lambda>(k, v). \<exists>s. k = PSet s) its" by simp
    from Cons.IH [OF this ex, of result] Nil show ?thesis
      by (simp add: p value_elements_def)
  next
    case (Cons vi vs)
    with invert_values_set_key_fails [of result s vi vs] show ?thesis
      by (auto simp: p k value_elements_def Let_def)
  qed
qed

lemma invert_fails:
  assumes "\<exists>p \<in> set (store self). value_elements (snd p) \<noteq> []"
  shows "\<exists>e. fst (invert self) = Inl e"
proof -
  obtain r d where loop:
    "keys_aligned_loop (normalized_to_original_keys_dict self) (normalized_keys self) = (r, d)"
    by (cases "keys_aligned_loop (normalized_to_original_keys_dict self) (normalized_keys self)")
  let ?self' = "self\<lparr>normalized_to_original_keys_dict := d\<rparr>"
  have init: "init [] (normalize_fn self) (Some set_constructor)
      = Inr \<lparr>store = [], original_to_normalized_key_dict = [],
             normalized_to_original_keys_dict = [], normalize_fn = normalize_fn self,
             default_value_fn = Some set_constructor\<rparr>"
    by (simp add: init_def)
  show ?thesis
  proof (cases r)
    case (Inl e)
    with loop show ?thesis
      by (simp add: invert_def init items_def keys_aligned_with_values_def)
  next
    case (Inr ks)
    with loop keys_aligned_loop_sets [of _ _ ks d]
    have len: "length ks = length (store self)" and sets: "list_all (\<lambda>x. \<exists>s. x = PSet s) ks"
      by (simp_all add: normalized_keys_def)
    let ?its = "zip ks (map snd (store self))"
    have its: "items self = (Inr ?its, ?self')"
      using loop Inr by (simp add: items_def keys_aligned_with_values_def values_nd_def)
    have a: "list_all (\<lambda>(k, v). \<exists>s. k = PSet s) ?its"
      using sets by (auto simp: list_all_iff dest: set_zip_leftD)
    from len have "snd ` set ?its = snd ` set (store self)"
      by (metis length_map list.set_map map_snd_zip)
    with assms have b: "\<exists>p \<in> set ?its. value_elements (snd p) \<noteq> []"
      by (metis (no_types, lifting) image_iff)
    from invert_items_fails [OF a b] show ?thesis
      by (simp add: invert_def init its)
  qed
qed

lemma init_one_pair:
  "init [(PStr ''a'', PStr ''x'')] normalize_string_pyval None = Inr one_pair_container"
  by (simp add: init_def setitem_def defaultdict_getitem_def set_add_def str_defs2
      one_pair_container_def)

text \<open>
  Claim C3. \<^verbatim>\<open>invert()\<close> is to return, without failing, a container in which every
  element of a key-set is registered under each value element. On
  \<^verbatim>\<open>NormalizingDictionary(("a", "x"))\<close> the only item is \<^verbatim>\<open>({"a"}, "x")\<close> and
  \<^verbatim>\<open>invert()\<close> raises TypeError (unhashable type: set).
\<close>

theorem invert_raises_type_error:
  "init [(PStr ''a'', PStr ''x'')] normalize_string_pyval None = Inr one_pair_container
   \<and> fst (items one_pair_container) = Inr [(PSet [PStr ''a''], PStr ''x'')]
   \<and> fst (invert one_pair_container) = Inl (TypeError ''unhashable type'')"
proof -
  have its: "items one_pair_container = (Inr [(PSet [PStr ''a''], PStr ''x'')], one_pair_container)"
    by (simp add: items_def keys_aligned_with_values_def normalized_keys_def values_nd_def
        defaultdict_getitem_def one_pair_container_def)
  have nx: "normalize_string_pyval (PStr ''x'') = Inr (PStr ''X'')" by (simp add: str_defs2)
  have "fst (invert one_pair_container) = Inl (TypeError ''unhashable type'')"
    unfolding invert_def its
    by (simp add: init_def getitem_def set_constructor_def set_add_def unhashable_def nx
        one_pair_container_def Let_def)
  with its init_one_pair show ?thesis by simp
qed

end
